theory Spec2Isabelle
  imports Main
begin

section \<open>Strings of the runtime\<close>

text \<open>
  A JavaScript string is a sequence of UTF-16 code units. The timestamps of the data
  contain the ideographs U+5E74, U+6708 and U+65E5, which do not fit an 8-bit
  character, so a string is a list of code units written as natural numbers.
\<close>

type_synonym jsstring = "nat list"

definition str :: "string \<Rightarrow> jsstring" where
  "str s = map of_char s"

definition nian :: nat where "nian = 0x5E74"
definition yue :: nat where "yue = 0x6708"
definition ri :: nat where "ri = 0x65E5"
definition colon :: nat where "colon = 0x3A"

definition isDigit :: "nat \<Rightarrow> bool" where
  "isDigit c = (0x30 \<le> c \<and> c \<le> 0x39)"

text \<open>
  White space and line terminators of ECMAScript: the class \<^verbatim>\<open>\s\<close> of a regular
  expression and the code units removed by \<^verbatim>\<open>String.prototype.trim\<close>.
\<close>

definition isSpace :: "nat \<Rightarrow> bool" where
  "isSpace c = (c = 0x09 \<or> c = 0x0A \<or> c = 0x0B \<or> c = 0x0C \<or> c = 0x0D \<or> c = 0x20
     \<or> c = 0xA0 \<or> c = 0x1680 \<or> (0x2000 \<le> c \<and> c \<le> 0x200A) \<or> c = 0x2028
     \<or> c = 0x2029 \<or> c = 0x202F \<or> c = 0x205F \<or> c = 0x3000 \<or> c = 0xFEFF)"

definition trim :: "jsstring \<Rightarrow> jsstring" where
  "trim s = rev (dropWhile isSpace (rev (dropWhile isSpace s)))"

text \<open>
  \<^verbatim>\<open>String.prototype.toLowerCase\<close> on the letters A to Z. The case mapping of the
  runtime for code units outside ASCII is not modelled: they are left as they are.
\<close>

definition lowerUnit :: "nat \<Rightarrow> nat" where
  "lowerUnit c = (if 0x41 \<le> c \<and> c \<le> 0x5A then c + 0x20 else c)"

definition toLowerCase :: "jsstring \<Rightarrow> jsstring" where
  "toLowerCase s = map lowerUnit s"

text \<open>\<^verbatim>\<open>s.includes(t)\<close>: \<open>t\<close> occurs in \<open>s\<close> as a contiguous run of code units.\<close>

fun startsWith :: "jsstring \<Rightarrow> jsstring \<Rightarrow> bool" where
  "startsWith s [] = True"
| "startsWith [] (c # t) = False"
| "startsWith (d # s) (c # t) = (d = c \<and> startsWith s t)"

fun includesStr :: "jsstring \<Rightarrow> jsstring \<Rightarrow> bool" where
  "includesStr [] t = (t = [])"
| "includesStr (d # s) t = (startsWith (d # s) t \<or> includesStr s t)"

text \<open>
  \<^verbatim>\<open>parseInt\<close> on a run of decimal digits, the only argument the program passes to it
  (each argument is a capture group of \<^verbatim>\<open>\d\<close>).
\<close>

definition parseInt :: "jsstring \<Rightarrow> int" where
  "parseInt s = foldl (\<lambda>n c. 10 * n + (int c - 0x30)) 0 s"

section \<open>The regular expression of the timestamp\<close>

text \<open>
  The program matches a reply's time against
  \<^verbatim>\<open>/(\d{4})Y(\d{1,2})M(\d{1,2})D\s+(\d{1,2}):(\d{1,2}):(\d{1,2})/\<close>,
  where Y, M and D stand for the code units U+5E74 (\<open>nian\<close>), U+6708 (\<open>yue\<close>) and
  U+65E5 (\<open>ri\<close>).
  The expression is a sequence of quantified character classes; it is not anchored, so
  \<^verbatim>\<open>match\<close> tries every start position from the left and returns the first match.
  Each quantifier is greedy and backtracks to shorter runs.
\<close>

datatype cls = Digit | Space | Lit nat

fun inCls :: "cls \<Rightarrow> nat \<Rightarrow> bool" where
  "inCls Digit c = isDigit c"
| "inCls Space c = isSpace c"
| "inCls (Lit l) c = (c = l)"

text \<open>An item is a class with the least and the greatest number of repetitions
  (\<open>None\<close>: unbounded).\<close>

type_synonym item = "cls \<times> nat \<times> nat option"

definition run :: "cls \<Rightarrow> jsstring \<Rightarrow> nat" where
  "run k s = length (takeWhile (inCls k) s)"

definition candidates :: "item \<Rightarrow> jsstring \<Rightarrow> nat list" where
  "candidates it s =
     (case it of (k, lo, hi) \<Rightarrow>
        let m = (case hi of None \<Rightarrow> run k s | Some h \<Rightarrow> min h (run k s))
        in rev [lo ..< Suc m])"

fun firstSome :: "('a \<Rightarrow> 'b option) \<Rightarrow> 'a list \<Rightarrow> 'b option" where
  "firstSome f [] = None"
| "firstSome f (x # xs) = (case f x of Some y \<Rightarrow> Some y | None \<Rightarrow> firstSome f xs)"

primrec matchSeq :: "item list \<Rightarrow> jsstring \<Rightarrow> jsstring list option" where
  "matchSeq [] s = Some []"
| "matchSeq (it # its) s =
     firstSome (\<lambda>n. map_option (\<lambda>cs. take n s # cs) (matchSeq its (drop n s)))
       (candidates it s)"

fun search :: "item list \<Rightarrow> jsstring \<Rightarrow> jsstring list option" where
  "search p [] = matchSeq p []"
| "search p (c # s) =
     (case matchSeq p (c # s) of Some cs \<Rightarrow> Some cs | None \<Rightarrow> search p s)"

definition timePattern :: "item list" where
  "timePattern =
     [(Digit, 4, Some 4), (Lit nian, 1, Some 1),
      (Digit, 1, Some 2), (Lit yue, 1, Some 1),
      (Digit, 1, Some 2), (Lit ri, 1, Some 1),
      (Space, 1, None),
      (Digit, 1, Some 2), (Lit colon, 1, Some 1),
      (Digit, 1, Some 2), (Lit colon, 1, Some 1),
      (Digit, 1, Some 2)]"

text \<open>
  \<open>dateParts\<close> is the result of \<^verbatim>\<open>reply.time.match(...)\<close>: \<open>None\<close> for \<^verbatim>\<open>null\<close>,
  otherwise the six capture groups (year, month, day, hour, minute, second).
\<close>

definition dateParts :: "jsstring \<Rightarrow> (jsstring \<times> jsstring \<times> jsstring \<times> jsstring \<times> jsstring \<times> jsstring) option" where
  "dateParts s =
     (case search timePattern s of
        Some [y, _, mo, _, d, _, _, h, _, mi, _, se] \<Rightarrow> Some (y, mo, d, h, mi, se)
      | _ \<Rightarrow> None)"

section \<open>Time values\<close>

text \<open>
  A \<^verbatim>\<open>Date\<close> holds a time value: milliseconds since 1970-01-01T00:00:00Z. The
  functions below are the abstract operations of ECMAScript (Day, DayFromYear, MakeDay,
  MakeTime, MakeDate, UTC) on integers. All time values the program builds come from
  fields of at most four digits, far inside the range in which \<^verbatim>\<open>TimeClip\<close> is the
  identity and the arithmetic on doubles is exact.

  The offset of the local time zone from UTC, in milliseconds, is a parameter \<open>tza\<close>
  of every operation that reads or writes local time; daylight saving changes are not
  modelled.
\<close>

definition msPerDay :: int where "msPerDay = 86400000"

definition Day :: "int \<Rightarrow> int" where
  "Day t = t div msPerDay"

definition DayFromYear :: "int \<Rightarrow> int" where
  "DayFromYear y =
     365 * (y - 1970) + (y - 1969) div 4 - (y - 1901) div 100 + (y - 1601) div 400"

definition InLeapYear :: "int \<Rightarrow> bool" where
  "InLeapYear y = (y mod 4 = 0 \<and> (y mod 100 \<noteq> 0 \<or> y mod 400 = 0))"

text \<open>The day of the year on which month \<open>mn\<close> starts; \<open>MakeDay\<close> calls it with
  \<open>mn\<close> from 0 to 11.\<close>

definition monthStart :: "int \<Rightarrow> bool \<Rightarrow> int" where
  "monthStart mn leap =
     [0, 31, 59, 90, 120, 151, 181, 212, 243, 273, 304, 334] ! nat mn
       + (if leap \<and> 2 \<le> mn then 1 else 0)"

definition MakeDay :: "int \<Rightarrow> int \<Rightarrow> int \<Rightarrow> int" where
  "MakeDay year month date =
     (let ym = year + month div 12; mn = month mod 12
      in DayFromYear ym + monthStart mn (InLeapYear ym) + date - 1)"

definition MakeTime :: "int \<Rightarrow> int \<Rightarrow> int \<Rightarrow> int \<Rightarrow> int" where
  "MakeTime hour minute sec ms = hour * 3600000 + minute * 60000 + sec * 1000 + ms"

definition MakeDate :: "int \<Rightarrow> int \<Rightarrow> int" where
  "MakeDate day time = day * msPerDay + time"

definition UTC :: "int \<Rightarrow> int \<Rightarrow> int" where
  "UTC tza t = t - tza"

definition LocalTime :: "int \<Rightarrow> int \<Rightarrow> int" where
  "LocalTime tza t = t + tza"

text \<open>\<^verbatim>\<open>new Date(year, month, date, hours, minutes, seconds)\<close>: the fields are local
  time, and a year from 0 to 99 means 1900 + year.\<close>

definition newDate :: "int \<Rightarrow> int \<Rightarrow> int \<Rightarrow> int \<Rightarrow> int \<Rightarrow> int \<Rightarrow> int \<Rightarrow> int" where
  "newDate tza y m dt h mi s =
     (let yr = (if 0 \<le> y \<and> y \<le> 99 then 1900 + y else y)
      in UTC tza (MakeDate (MakeDay yr m dt) (MakeTime h mi s 0)))"

text \<open>\<^verbatim>\<open>d.setHours(hour, min, sec, ms)\<close>: replaces the time of day of the local day
  of \<open>d\<close>.\<close>

definition setHours :: "int \<Rightarrow> int \<Rightarrow> int \<Rightarrow> int \<Rightarrow> int \<Rightarrow> int \<Rightarrow> int" where
  "setHours tza d hour minute sec ms =
     UTC tza (MakeDate (Day (LocalTime tza d)) (MakeTime hour minute sec ms))"

text \<open>
  A date input holds a calendar date (year, month from 1 to 12, day) or nothing. Its
  \<^verbatim>\<open>valueAsDate\<close> is midnight UTC at the start of that date, or \<^verbatim>\<open>null\<close>.
\<close>

type_synonym calendarDate = "int \<times> int \<times> int"

definition valueAsDate :: "calendarDate option \<Rightarrow> int option" where
  "valueAsDate v = map_option (\<lambda>(y, m, d). MakeDate (MakeDay y (m - 1) d) 0) v"

section \<open>Data model\<close>

text \<open>
  Threads and replies are objects of the parsed JSON document. A property that the
  document does not give is \<^verbatim>\<open>undefined\<close> when read: \<open>None\<close>.
\<close>

datatype error = TypeError

record Reply =
  user :: "jsstring option"
  user_id :: "jsstring option"
  time :: "jsstring option"
  reply :: "jsstring option"

record Thread =
  thread_number :: "jsstring option"
  post_title :: "jsstring option"
  keyword :: "jsstring option"
  username :: "jsstring option"
  replies :: "Reply list option"

record Filters =
  keywords_sel :: "jsstring list"
  startDate :: "int option"
  endDate :: "int option"

text \<open>The value of \<^verbatim>\<open>activeFilters\<close> at start and after a reset.\<close>

definition noFilters :: Filters where
  "noFilters = \<lparr>keywords_sel = [], startDate = None, endDate = None\<rparr>"

section \<open>Filtering\<close>

text \<open>
  Evaluation of \<^verbatim>\<open>a || b\<close> where \<open>a\<close> may throw: \<open>b\<close> is evaluated only when
  \<open>a\<close> is false. \<^verbatim>\<open>Array.prototype.some\<close> and \<^verbatim>\<open>filter\<close> call the callback on the
  elements from left to right; the first exception ends the whole call.
\<close>

definition orE :: "error + bool \<Rightarrow> error + bool \<Rightarrow> error + bool" where
  "orE a b = (case a of Inl e \<Rightarrow> Inl e | Inr True \<Rightarrow> Inr True | Inr False \<Rightarrow> b)"

fun someE :: "('a \<Rightarrow> error + bool) \<Rightarrow> 'a list \<Rightarrow> error + bool" where
  "someE f [] = Inr False"
| "someE f (x # xs) = orE (f x) (someE f xs)"

fun filterE :: "('a \<Rightarrow> error + bool) \<Rightarrow> 'a list \<Rightarrow> error + 'a list" where
  "filterE f [] = Inr []"
| "filterE f (x # xs) =
     (case f x of
        Inl e \<Rightarrow> Inl e
      | Inr b \<Rightarrow>
          (case filterE f xs of
             Inl e \<Rightarrow> Inl e
           | Inr ys \<Rightarrow> Inr (if b then x # ys else ys)))"

text \<open>\<^verbatim>\<open>field.toLowerCase().includes(searchTerm)\<close>: calling a method of
  \<^verbatim>\<open>undefined\<close> throws a TypeError.\<close>

definition lowerIncludes :: "jsstring option \<Rightarrow> jsstring \<Rightarrow> error + bool" where
  "lowerIncludes field searchTerm =
     (case field of
        None \<Rightarrow> Inl TypeError
      | Some s \<Rightarrow> Inr (includesStr (toLowerCase s) searchTerm))"

text \<open>The callback of \<^verbatim>\<open>thread.replies.some\<close> in the search: the reply text, then
  the user when it is there and not the empty string.\<close>

definition replyMatches :: "jsstring \<Rightarrow> Reply \<Rightarrow> error + bool" where
  "replyMatches searchTerm r =
     orE (lowerIncludes (reply r) searchTerm)
       (case user r of
          None \<Rightarrow> Inr False
        | Some u \<Rightarrow> if u = [] then Inr False else lowerIncludes (Some u) searchTerm)"

definition matchesSearch :: "jsstring \<Rightarrow> Thread \<Rightarrow> error + bool" where
  "matchesSearch searchTerm thread =
     orE (lowerIncludes (post_title thread) searchTerm)
      (orE (lowerIncludes (keyword thread) searchTerm)
        (orE (lowerIncludes (username thread) searchTerm)
          (case replies thread of
             None \<Rightarrow> Inr False
           | Some rs \<Rightarrow> someE (replyMatches searchTerm) rs)))"

text \<open>The callback of \<^verbatim>\<open>thread.replies.some\<close> in the date check.\<close>

definition replyDate :: "int \<Rightarrow> jsstring \<times> jsstring \<times> jsstring \<times> jsstring \<times> jsstring \<times> jsstring \<Rightarrow> int" where
  "replyDate tza parts =
     (case parts of (y, mo, d, h, mi, se) \<Rightarrow>
        newDate tza (parseInt y) (parseInt mo - 1) (parseInt d)
          (parseInt h) (parseInt mi) (parseInt se))"

definition replyInRange :: "int \<Rightarrow> int \<Rightarrow> int \<Rightarrow> Reply \<Rightarrow> bool" where
  "replyInRange tza start fin r =
     (case time r of
        None \<Rightarrow> False
      | Some ts \<Rightarrow>
          if ts = [] then False
          else (case dateParts ts of
                  None \<Rightarrow> False
                | Some parts \<Rightarrow> start \<le> replyDate tza parts \<and> replyDate tza parts \<le> fin))"

definition hasReplyInDateRange :: "int \<Rightarrow> int \<Rightarrow> int \<Rightarrow> Reply list \<Rightarrow> bool" where
  "hasReplyInDateRange tza start fin rs = list_ex (replyInRange tza start fin) rs"

text \<open>The callback of \<^verbatim>\<open>allThreads.filter\<close> in \<^verbatim>\<open>filterThreads\<close>.\<close>

definition threadPasses :: "int \<Rightarrow> Filters \<Rightarrow> jsstring \<Rightarrow> Thread \<Rightarrow> error + bool" where
  "threadPasses tza activeFilters searchTerm thread =
     (case (if searchTerm \<noteq> [] then matchesSearch searchTerm thread else Inr True) of
        Inl e \<Rightarrow> Inl e
      | Inr False \<Rightarrow> Inr False
      | Inr True \<Rightarrow>
          if keywords_sel activeFilters \<noteq> []
             \<and> keyword thread \<notin> Some ` set (keywords_sel activeFilters)
          then Inr False
          else (case (startDate activeFilters, endDate activeFilters, replies thread) of
                  (Some start, Some fin, Some (r # rs)) \<Rightarrow>
                     Inr (hasReplyInDateRange tza start fin (r # rs))
                | _ \<Rightarrow> Inr True))"

definition filterThreads :: "int \<Rightarrow> Filters \<Rightarrow> Thread list \<Rightarrow> jsstring \<Rightarrow> error + Thread list" where
  "filterThreads tza activeFilters allThreads searchTerm =
     filterE (threadPasses tza activeFilters searchTerm) allThreads"

section \<open>The earlier version of the search\<close>

text \<open>
  The source file holds two versions of the script. In the earlier one there are no
  filters and \<^verbatim>\<open>performSearch\<close> filters the threads itself. \<open>matchesSearch_v1\<close> is
  the callback of its \<^verbatim>\<open>allThreads.filter\<close>, and \<open>searchThreads_v1\<close> gives the
  threads it hands to \<^verbatim>\<open>renderThreads\<close> for a search term.
\<close>

definition matchesSearch_v1 :: "jsstring \<Rightarrow> Thread \<Rightarrow> error + bool" where
  "matchesSearch_v1 searchTerm thread =
     (case orE (lowerIncludes (post_title thread) searchTerm)
             (orE (lowerIncludes (keyword thread) searchTerm)
                  (lowerIncludes (username thread) searchTerm)) of
        Inl e \<Rightarrow> Inl e
      | Inr True \<Rightarrow> Inr True
      | Inr False \<Rightarrow>
          (case replies thread of
             Some (r # rs) \<Rightarrow> someE (replyMatches searchTerm) (r # rs)
           | _ \<Rightarrow> Inr False))"

definition searchThreads_v1 :: "Thread list \<Rightarrow> jsstring \<Rightarrow> error + Thread list" where
  "searchThreads_v1 allThreads searchTerm =
     (if searchTerm = [] then Inr allThreads
      else filterE (matchesSearch_v1 searchTerm) allThreads)"

definition performSearch_v1 :: "Thread list \<Rightarrow> jsstring \<Rightarrow> error + Thread list" where
  "performSearch_v1 allThreads inputValue =
     searchThreads_v1 allThreads (toLowerCase (trim inputValue))"

section \<open>The page and its event handlers\<close>

text \<open>
  The state of the later version: its global variables, the values of its input
  elements, the \<^verbatim>\<open>hidden\<close> class of each section, and what the list and the detail
  section hold. A keyword chip is its \<^verbatim>\<open>data-keyword\<close> attribute with its
  \<^verbatim>\<open>selected\<close> class.
\<close>

record State =
  allThreads :: "Thread list"
  currentThread :: "Thread option"
  activeFilters :: Filters
  searchInput :: jsstring
  startDateInput :: "calendarDate option"
  endDateInput :: "calendarDate option"
  chips :: "(jsstring \<times> bool) list"
  loadingHidden :: bool
  threadsHidden :: bool
  threadDetailHidden :: bool
  noResultsHidden :: bool
  filterPanelHidden :: bool
  threadCards :: "Thread list"
  threadContent :: "Thread option"

definition showNoResults :: "State \<Rightarrow> State" where
  "showNoResults s = s\<lparr>noResultsHidden := False, threadsHidden := True\<rparr>"

definition hideNoResults :: "State \<Rightarrow> State" where
  "hideNoResults s = s\<lparr>noResultsHidden := True\<rparr>"

definition showThreadsView :: "State \<Rightarrow> State" where
  "showThreadsView s =
     (let s1 = s\<lparr>threadDetailHidden := True, threadsHidden := False\<rparr>;
          s2 = (if allThreads s1 = [] then showNoResults s1 else hideNoResults s1)
      in s2\<lparr>currentThread := None\<rparr>)"

definition renderThreads :: "Thread list \<Rightarrow> State \<Rightarrow> State" where
  "renderThreads threads s =
     (let s1 = s\<lparr>threadCards := []\<rparr>
      in if threads = [] then showNoResults s1
         else showThreadsView ((hideNoResults s1)\<lparr>threadCards := threads\<rparr>))"

definition showThreadDetail :: "Thread \<Rightarrow> State \<Rightarrow> State" where
  "showThreadDetail thread s =
     s\<lparr>currentThread := Some thread, threadContent := Some thread,
       threadsHidden := True, noResultsHidden := True, threadDetailHidden := False\<rparr>"

text \<open>
  A handler that can throw returns the exception, if any, with the state it leaves
  behind: what it wrote before the exception stays written.
\<close>

definition performSearch :: "int \<Rightarrow> State \<Rightarrow> error option \<times> State" where
  "performSearch tza s =
     (let searchTerm = toLowerCase (trim (searchInput s))
      in case filterThreads tza (activeFilters s) (allThreads s) searchTerm of
           Inl e \<Rightarrow> (Some e, s)
         | Inr filteredThreads \<Rightarrow>
             (let s1 = renderThreads filteredThreads s
              in (None, if filteredThreads = [] then showNoResults s1 else s1)))"

definition toggleFilterPanel :: "State \<Rightarrow> State" where
  "toggleFilterPanel s = s\<lparr>filterPanelHidden := \<not> filterPanelHidden s\<rparr>"

definition applyFilters :: "int \<Rightarrow> State \<Rightarrow> error option \<times> State" where
  "applyFilters tza s =
     (let selectedKeywords = map fst (filter snd (chips s));
          startDate = valueAsDate (startDateInput s);
          endDate = map_option (\<lambda>d. setHours tza d 23 59 59 999)
                      (valueAsDate (endDateInput s));
          s1 = s\<lparr>activeFilters :=
                  \<lparr>keywords_sel = selectedKeywords, startDate = startDate,
                   endDate = endDate\<rparr>\<rparr>
      in case performSearch tza s1 of
           (Some e, s2) \<Rightarrow> (Some e, s2)
         | (None, s2) \<Rightarrow> (None, toggleFilterPanel s2))"

definition resetFilters :: "State \<Rightarrow> State" where
  "resetFilters s =
     (let s1 = s\<lparr>chips := map (\<lambda>(k, sel). (k, False)) (chips s),
                 startDateInput := None, endDateInput := None,
                 activeFilters := noFilters\<rparr>
      in renderThreads (allThreads s1) s1)"

text \<open>The \<^verbatim>\<open>keydown\<close> listener of the document, for the key Escape.\<close>

definition keydownEscape :: "State \<Rightarrow> State" where
  "keydownEscape s =
     (if \<not> filterPanelHidden s then toggleFilterPanel s
      else if \<not> threadsHidden s then showThreadsView s
      else s)"

text \<open>
  The view a state shows, read off the sections that are not hidden: the loading
  indicator, the detail section, the list, the no-results message.
\<close>

datatype ViewState = Loading | List | Detail "Thread option" | Empty | Blank

definition viewState :: "State \<Rightarrow> ViewState" where
  "viewState s =
     (if \<not> loadingHidden s then Loading
      else if \<not> threadDetailHidden s then Detail (currentThread s)
      else if \<not> threadsHidden s then List
      else if \<not> noResultsHidden s then Empty
      else Blank)"

section \<open>The claims in the words of the specification\<close>


definition repliesOf :: "Thread \<Rightarrow> Reply list" where
  "repliesOf t = (case replies t of None \<Rightarrow> [] | Some rs \<Rightarrow> rs)"


text \<open>A thread as the data format of the README gives it: title, keyword and user
  name are there, and every reply has its text.\<close>

definition wellFormedThread :: "Thread \<Rightarrow> bool" where
  "wellFormedThread t =
     (post_title t \<noteq> None \<and> keyword t \<noteq> None \<and> username t \<noteq> None
      \<and> list_all (\<lambda>r. reply r \<noteq> None) (repliesOf t))"

text \<open>A run of decimal digits of a length between \<open>lo\<close> and \<open>hi\<close>.\<close>

definition digitRun :: "nat \<Rightarrow> nat \<Rightarrow> jsstring \<Rightarrow> bool" where
  "digitRun lo hi xs = (lo \<le> length xs \<and> length xs \<le> hi \<and> list_all isDigit xs)"

text \<open>The filtered set that the page shows: the cards of the list, when the list is
  not hidden.\<close>

definition visibleThreads :: "State \<Rightarrow> Thread list" where
  "visibleThreads s = (if threadsHidden s then [] else threadCards s)"

section \<open>Example data\<close>

text \<open>The threads of the specification's date range scenario: thread A has one reply,
  written at 21:24:39 on 7 May 2024, and thread B has no replies.\<close>

definition sampleTime :: jsstring where
  "sampleTime =
     str ''2024'' @ [nian] @ str ''5'' @ [yue] @ str ''7'' @ [ri] @ str '' 21:24:39''"

definition replyA :: Reply where
  "replyA = \<lparr>user = Some (str ''Alice''), user_id = Some (str ''431346''),
             time = Some sampleTime, reply = Some (str ''Hello there'')\<rparr>"

definition threadA :: Thread where
  "threadA = \<lparr>thread_number = Some (str ''1''), post_title = Some (str ''Thread A''),
              keyword = Some (str ''News''), username = Some (str ''ann''),
              replies = Some [replyA]\<rparr>"

definition threadB :: Thread where
  "threadB = \<lparr>thread_number = Some (str ''2''), post_title = Some (str ''Thread B''),
              keyword = Some (str ''Sport''), username = Some (str ''bob''),
              replies = Some []\<rparr>"

text \<open>A thread whose document gives no title.\<close>

definition threadNoTitle :: Thread where
  "threadNoTitle = threadB\<lparr>post_title := None\<rparr>"

text \<open>A thread whose document gives no keyword.\<close>

definition threadNoKeyword :: Thread where
  "threadNoKeyword = threadB\<lparr>keyword := None\<rparr>"

text \<open>A thread whose only reply was written at noon on 31 May 2024.\<close>

definition lateTime :: jsstring where
  "lateTime =
     str ''2024'' @ [nian] @ str ''5'' @ [yue] @ str ''31'' @ [ri] @ str '' 12:00:00''"

definition threadLate :: Thread where
  "threadLate = threadA\<lparr>replies := Some [replyA\<lparr>time := Some lateTime\<rparr>]\<rparr>"

text \<open>The page after threads A and B are loaded and listed, with the date inputs set
  to 1 May 2024 and 31 May 2024, no chip selected and the filter panel closed; and the
  same page for threads A and the thread of 31 May.\<close>

definition listState :: State where
  "listState =
     \<lparr>allThreads = [threadA, threadB], currentThread = None, activeFilters = noFilters,
      searchInput = [], startDateInput = Some (2024, 5, 1), endDateInput = Some (2024, 5, 31),
      chips = [(str ''News'', False), (str ''Sport'', False)],
      loadingHidden = True, threadsHidden = False, threadDetailHidden = True,
      noResultsHidden = True, filterPanelHidden = True,
      threadCards = [threadA, threadB], threadContent = None\<rparr>"

definition lateState :: State where
  "lateState = listState\<lparr>allThreads := [threadA, threadLate],
                          threadCards := [threadA, threadLate]\<rparr>"

section \<open>Running a filter over a list\<close>

lemma filterE_total:
  "(\<And>x. x \<in> set xs \<Longrightarrow> f x = Inr (p x)) \<Longrightarrow> filterE f xs = Inr (filter p xs)"
  by (induction xs) auto

lemma filterE_Inr:
  "filterE f xs = Inr ys \<Longrightarrow> ys = filter (\<lambda>x. f x = Inr True) xs"
  by (induction xs arbitrary: ys) (auto split: sum.splits if_splits)

lemma filterE_cong_eq:
  "(\<And>x. x \<in> set xs \<Longrightarrow> f x = g x) \<Longrightarrow> filterE f xs = filterE g xs"
  by (induction xs) (auto split: sum.splits)

lemma filterE_returns:
  "\<forall>x \<in> set xs. \<exists>b. f x = Inr b \<Longrightarrow> \<exists>ys. filterE f xs = Inr ys"
  by (induction xs) (auto split: sum.splits)

lemma filterE_throws:
  "f x = Inl e \<Longrightarrow> x \<in> set xs \<Longrightarrow> \<exists>e'. filterE f xs = Inl e'"
  by (induction xs) (auto split: sum.splits)


lemma someE_total:
  "\<forall>r \<in> set rs. \<exists>b. f r = Inr b \<Longrightarrow> \<exists>b. someE f rs = Inr b"
  by (induction rs) (auto simp: orE_def split: sum.splits bool.splits)

lemmas example_defs =
  threadA_def threadB_def threadNoTitle_def threadNoKeyword_def threadLate_def replyA_def
  sampleTime_def
  lateTime_def str_def noFilters_def
  nian_def yue_def ri_def colon_def

lemmas view_defs =
  showThreadsView_def showThreadDetail_def showNoResults_def hideNoResults_def
  toggleFilterPanel_def keydownEscape_def Let_def

lemmas date_defs =
  valueAsDate_def setHours_def newDate_def MakeDate_def MakeDay_def MakeTime_def
  DayFromYear_def InLeapYear_def monthStart_def Day_def UTC_def LocalTime_def msPerDay_def

lemmas parse_defs =
  dateParts_def timePattern_def candidates_def run_def isDigit_def isSpace_def
  replyDate_def parseInt_def

lemmas filter_defs =
  filterThreads_def threadPasses_def matchesSearch_def replyMatches_def
  lowerIncludes_def orE_def toLowerCase_def lowerUnit_def

section \<open>The empty filter state\<close>

lemma threadPasses_nothing:
  assumes "keywords_sel F = []" "startDate F = None \<or> endDate F = None"
  shows "threadPasses tza F [] t = Inr True"
  using assms
  by (auto simp: threadPasses_def split: sum.splits bool.splits option.splits list.splits)

text \<open>
  C5: with the empty search term, no selected keyword and no date range, the filter
  returns the whole collection: the same threads in the same order, each as often as
  the collection has it. The collection and the threads are values that the filter
  reads; the result is a new list.
\<close>

theorem filterThreads_empty_state:
  "filterThreads tza noFilters C [] = Inr C"
proof -
  have "filterE (threadPasses tza noFilters []) C = Inr (filter (\<lambda>_. True) C)"
    by (rule filterE_total) (simp add: threadPasses_nothing noFilters_def)
  then show ?thesis by (simp add: filterThreads_def)
qed

theorem filterThreads_empty_state_witness:
  "filterThreads 0 noFilters [threadA, threadB, threadA] [] = Inr [threadA, threadB, threadA]"
  by (rule filterThreads_empty_state)

section \<open>The two versions of the search\<close>

lemma matchesSearch_v1_eq:
  "matchesSearch_v1 T t = matchesSearch T t"
  by (auto simp: matchesSearch_v1_def matchesSearch_def orE_def
      split: sum.splits bool.splits option.splits list.splits)

lemma threadPasses_search_only:
  assumes "keywords_sel F = []" "startDate F = None \<or> endDate F = None" "T \<noteq> []"
  shows "threadPasses tza F T t = matchesSearch T t"
  using assms
  by (auto simp: threadPasses_def split: sum.splits bool.splits option.splits list.splits)

text \<open>
  C10: when no keyword is selected and no date range is set (the start or the end is
  missing), the threads that the earlier \<^verbatim>\<open>performSearch\<close> renders for a search term
  are the threads that the later \<^verbatim>\<open>filterThreads\<close> returns for it: the same list, or
  the same exception.
\<close>

theorem search_versions_agree:
  assumes "keywords_sel F = []" "startDate F = None \<or> endDate F = None"
  shows "searchThreads_v1 C T = filterThreads tza F C T"
proof (cases "T = []")
  case True
  have "filterE (threadPasses tza F []) C = Inr (filter (\<lambda>_. True) C)"
    by (rule filterE_total) (simp add: threadPasses_nothing [OF assms])
  with True show ?thesis by (simp add: searchThreads_v1_def filterThreads_def)
next
  case False
  have "filterE (matchesSearch_v1 T) C = filterE (threadPasses tza F T) C"
    by (rule filterE_cong_eq)
      (simp add: matchesSearch_v1_eq threadPasses_search_only [OF assms False])
  with False show ?thesis by (simp add: searchThreads_v1_def filterThreads_def)
qed

theorem search_versions_agree_witness:
  "keywords_sel noFilters = [] \<and> startDate noFilters = None
   \<and> searchThreads_v1 [threadA, threadB] (str ''hello'')
       = filterThreads 0 noFilters [threadA, threadB] (str ''hello'')
   \<and> filterThreads 0 noFilters [threadA, threadB] (str ''hello'') = Inr [threadA]"
proof -
  have k: "keywords_sel noFilters = []" and d: "startDate noFilters = None"
    by (simp_all add: noFilters_def)
  have e: "searchThreads_v1 [threadA, threadB] (str ''hello'')
             = filterThreads 0 noFilters [threadA, threadB] (str ''hello'')"
    by (rule search_versions_agree) (simp_all add: k d)
  have v: "filterThreads 0 noFilters [threadA, threadB] (str ''hello'') = Inr [threadA]"
    by (simp add: filter_defs example_defs)
  from k d e v show ?thesis by simp
qed

section \<open>The keyword filter\<close>

lemma threadPasses_keyword:
  assumes "keywords_sel F \<noteq> []" "threadPasses tza F T t = Inr True"
  shows "keyword t \<in> Some ` set (keywords_sel F)"
  using assms
  by (auto simp: threadPasses_def
      split: sum.splits bool.splits option.splits list.splits if_splits)

text \<open>
  C7: when some keyword is selected, every thread of the result has a keyword that is
  one of the selected keywords, compared as strings code unit by code unit, and a
  thread of the collection whose keyword is not selected (or is absent) is not in the
  result. The result holds threads of the collection only.
\<close>

theorem keyword_filter_exact:
  assumes "keywords_sel F \<noteq> []" "filterThreads tza F C T = Inr R"
  shows "(\<forall>t \<in> set R. \<exists>k \<in> set (keywords_sel F). keyword t = Some k)
       \<and> (\<forall>t \<in> set C. keyword t \<notin> Some ` set (keywords_sel F) \<longrightarrow> t \<notin> set R)
       \<and> set R \<subseteq> set C"
proof -
  have R: "R = filter (\<lambda>t. threadPasses tza F T t = Inr True) C"
    using assms(2) by (simp add: filterThreads_def filterE_Inr)
  have "\<And>t. t \<in> set R \<Longrightarrow> keyword t \<in> Some ` set (keywords_sel F)"
    using R threadPasses_keyword [OF assms(1)] by auto
  then show ?thesis using R by auto
qed

theorem keyword_filter_exact_witness:
  "keywords_sel (noFilters\<lparr>keywords_sel := [str ''Sport'']\<rparr>) \<noteq> []
   \<and> filterThreads 0 (noFilters\<lparr>keywords_sel := [str ''Sport'']\<rparr>) [threadA, threadB] []
       = Inr [threadB]
   \<and> keyword threadB = Some (str ''Sport'')
   \<and> threadA \<notin> set [threadB]"
proof -
  let ?F = "noFilters\<lparr>keywords_sel := [str ''Sport'']\<rparr>"
  have k: "keywords_sel ?F \<noteq> []" by simp
  have v: "filterThreads 0 ?F [threadA, threadB] [] = Inr [threadB]"
    by (simp add: filter_defs example_defs)
  have a: "keyword threadA \<notin> Some ` set (keywords_sel ?F)"
    by (simp add: example_defs)
  from keyword_filter_exact [OF k v] a
  have "threadA \<notin> set [threadB]" and "\<exists>k \<in> set (keywords_sel ?F). keyword threadB = Some k"
    by simp_all
  with k v show ?thesis by simp
qed

section \<open>The search term\<close>

text \<open>\<open>includesStr\<close> is the substring relation.\<close>

lemma startsWith_iff: "startsWith s t \<longleftrightarrow> (\<exists>q. s = t @ q)"
  by (induction s t rule: startsWith.induct) auto

lemma includesStr_iff: "includesStr s t \<longleftrightarrow> (\<exists>p q. s = p @ t @ q)"
proof (induction s)
  case Nil
  then show ?case by simp
next
  case (Cons d s)
  show ?case
  proof
    assume "includesStr (d # s) t"
    then consider "startsWith (d # s) t" | "includesStr s t" by auto
    then show "\<exists>p q. d # s = p @ t @ q"
    proof cases
      case 1
      then obtain q where "d # s = t @ q" by (auto simp: startsWith_iff)
      then have "d # s = [] @ t @ q" by simp
      then show ?thesis by blast
    next
      case 2
      then obtain p q where "s = p @ t @ q" using Cons.IH by blast
      then have "d # s = (d # p) @ t @ q" by simp
      then show ?thesis by blast
    qed
  next
    assume "\<exists>p q. d # s = p @ t @ q"
    then obtain p q where pq: "d # s = p @ t @ q" by blast
    show "includesStr (d # s) t"
    proof (cases p)
      case Nil
      with pq have "startsWith (d # s) t" by (auto simp: startsWith_iff)
      then show ?thesis by simp
    next
      case (Cons a p')
      with pq have "s = p' @ t @ q" by simp
      then have "includesStr s t" using Cons.IH by blast
      then show ?thesis by simp
    qed
  qed
qed






lemma replyMatches_total:
  "reply r \<noteq> None \<Longrightarrow> \<exists>b. replyMatches T r = Inr b"
  by (auto simp: replyMatches_def lowerIncludes_def orE_def split: option.splits bool.splits)

lemma matchesSearch_total:
  assumes "wellFormedThread t"
  shows "\<exists>b. matchesSearch T t = Inr b"
proof -
  have "\<exists>b. someE (replyMatches T) (repliesOf t) = Inr b"
    using assms
    by (intro someE_total ballI replyMatches_total) (auto simp: wellFormedThread_def list_all_iff)
  then show ?thesis
    using assms
    by (auto simp: matchesSearch_def wellFormedThread_def lowerIncludes_def orE_def repliesOf_def
        split: option.splits bool.splits)
qed

lemma threadPasses_total:
  assumes "wellFormedThread t \<or> T = []"
  shows "\<exists>b. threadPasses tza F T t = Inr b"
proof (cases "T = []")
  case True
  then show ?thesis
    by (auto simp: threadPasses_def split: option.splits list.splits)
next
  case False
  with assms obtain b where "matchesSearch T t = Inr b" using matchesSearch_total by blast
  with False show ?thesis
    by (auto simp: threadPasses_def split: option.splits list.splits bool.splits)
qed

lemma filterThreads_returns:
  assumes "list_all wellFormedThread C \<or> T = []"
  shows "\<exists>R. filterThreads tza F C T = Inr R"
  unfolding filterThreads_def
  using assms by (intro filterE_returns ballI threadPasses_total) (auto simp: list_all_iff)

lemma threadPasses_no_title:
  "T \<noteq> [] \<Longrightarrow> post_title t = None \<Longrightarrow> threadPasses tza F T t = Inl TypeError"
  by (simp add: threadPasses_def matchesSearch_def lowerIncludes_def orE_def)

text \<open>
  C2, as the code has it: the search raises no error when every thread has its title,
  keyword and user name and every reply has its text, and never when the search term
  is empty; then the filter returns a list for the whole collection. A thread without a
  title is not read as a thread with the empty title: a search for a term that is not
  empty throws a TypeError on it.
\<close>

theorem search_needs_the_fields:
  "(list_all wellFormedThread C \<or> T = [] \<longrightarrow> (\<exists>R. filterThreads tza F C T = Inr R))
   \<and> (T \<noteq> [] \<and> t \<in> set C \<and> post_title t = None \<longrightarrow>
        filterThreads tza F C T = Inl TypeError)"
proof -
  have "filterThreads tza F C T = Inl TypeError"
    if n: "T \<noteq> []" and m: "t \<in> set C" and p: "post_title t = None"
  proof -
    have "threadPasses tza F T t = Inl TypeError"
      using n p by (simp add: threadPasses_no_title)
    then have "\<exists>e. filterE (threadPasses tza F T) C = Inl e"
      using m by (rule filterE_throws)
    then obtain e where "filterThreads tza F C T = Inl e"
      unfolding filterThreads_def ..
    then show ?thesis by (cases e) simp
  qed
  moreover have "\<exists>R. filterThreads tza F C T = Inr R"
    if "list_all wellFormedThread C \<or> T = []"
    using that by (rule filterThreads_returns)
  ultimately show ?thesis by blast
qed

text \<open>C2 as the specification states it fails: the title of the second thread is
  absent and the search for \<open>hello\<close> throws.\<close>

theorem absent_title_counterexample:
  "filterThreads 0 noFilters [threadA, threadNoTitle] (str ''hello'') = Inl TypeError"
  by (simp add: filter_defs example_defs)

theorem search_needs_the_fields_witness:
  "list_all wellFormedThread [threadA, threadB]
   \<and> filterThreads 0 noFilters [threadA, threadB] (str ''thread b'') = Inr [threadB]
   \<and> str ''thread b'' \<noteq> [] \<and> post_title threadNoTitle = None
   \<and> filterThreads 0 noFilters [threadNoTitle] (str ''thread b'') = Inl TypeError"
proof -
  have w: "list_all wellFormedThread [threadA, threadB]"
    by (simp add: wellFormedThread_def repliesOf_def example_defs)
  have n: "str ''thread b'' \<noteq> []" and p: "post_title threadNoTitle = None"
    by (simp_all add: example_defs)
  from w search_needs_the_fields
    [where C = "[threadA, threadB]" and T = "str ''thread b''" and tza = 0 and F = noFilters]
  have R: "\<exists>R. filterThreads 0 noFilters [threadA, threadB] (str ''thread b'') = Inr R"
    by blast
  have v: "filterThreads 0 noFilters [threadA, threadB] (str ''thread b'') = Inr [threadB]"
    by (simp add: filter_defs example_defs)
  from n p search_needs_the_fields
    [where C = "[threadNoTitle]" and T = "str ''thread b''" and t = threadNoTitle
       and tza = 0 and F = noFilters]
  have e: "filterThreads 0 noFilters [threadNoTitle] (str ''thread b'') = Inl TypeError"
    by simp
  from w R v n p e show ?thesis by simp
qed



section \<open>The views\<close>

text \<open>
  C3: pressing Escape while the filter panel is open closes the panel and leaves the
  view as it is. With the panel closed the listener calls \<^verbatim>\<open>showThreadsView\<close> only
  when the list is not hidden; \<^verbatim>\<open>showThreadDetail\<close> hides the list, so in the detail
  view the key changes nothing and the detail view stays.
\<close>

theorem escape_key:
  "(\<not> filterPanelHidden s \<longrightarrow>
      keydownEscape s = s\<lparr>filterPanelHidden := True\<rparr> \<and> viewState (keydownEscape s) = viewState s)
   \<and> (filterPanelHidden s \<longrightarrow>
      keydownEscape (showThreadDetail t s) = showThreadDetail t s
      \<and> \<not> threadDetailHidden (keydownEscape (showThreadDetail t s))
      \<and> threadsHidden (keydownEscape (showThreadDetail t s)))
   \<and> (filterPanelHidden s \<and> loadingHidden s \<longrightarrow>
      viewState (keydownEscape (showThreadDetail t s)) = Detail (Some t))
   \<and> (filterPanelHidden s \<and> threadsHidden s \<longrightarrow> keydownEscape s = s)"
  by (simp add: view_defs viewState_def)

theorem escape_key_witness:
  "filterPanelHidden listState \<and> loadingHidden listState
   \<and> viewState listState = List
   \<and> viewState (showThreadDetail threadA listState) = Detail (Some threadA)
   \<and> viewState (keydownEscape (showThreadDetail threadA listState)) = Detail (Some threadA)
   \<and> viewState (showThreadsView (showThreadDetail threadA listState)) = List
   \<and> \<not> filterPanelHidden (toggleFilterPanel listState)
   \<and> keydownEscape (toggleFilterPanel listState) = listState"
proof -
  have f: "filterPanelHidden listState" and l: "loadingHidden listState"
    by (simp_all add: listState_def)
  have o: "\<not> filterPanelHidden (toggleFilterPanel listState)"
    by (simp add: listState_def toggleFilterPanel_def)
  from f l escape_key [of listState threadA]
  have d: "viewState (keydownEscape (showThreadDetail threadA listState)) = Detail (Some threadA)"
    by blast
  from o escape_key [of "toggleFilterPanel listState" threadA]
  have c: "keydownEscape (toggleFilterPanel listState)
             = (toggleFilterPanel listState)\<lparr>filterPanelHidden := True\<rparr>"
    by blast
  have c': "(toggleFilterPanel listState)\<lparr>filterPanelHidden := True\<rparr> = listState"
    by (simp add: listState_def toggleFilterPanel_def)
  have v: "viewState listState = List"
    "viewState (showThreadDetail threadA listState) = Detail (Some threadA)"
    "viewState (showThreadsView (showThreadDetail threadA listState)) = List"
    by (simp_all add: listState_def viewState_def view_defs)
  from f l o d c c' v show ?thesis by simp
qed

text \<open>
  C9: opening a thread and going back changes neither the active filters, nor the
  search box, the chips and the date inputs, nor the loaded collection, nor the cards
  of the list. When the thread was opened from a card of a list that is shown, the
  list is shown again after Back and holds the same threads as before.
\<close>

theorem detail_round_trip:
  "activeFilters (showThreadsView (showThreadDetail t s)) = activeFilters s
   \<and> searchInput (showThreadsView (showThreadDetail t s)) = searchInput s
   \<and> chips (showThreadsView (showThreadDetail t s)) = chips s
   \<and> startDateInput (showThreadsView (showThreadDetail t s)) = startDateInput s
   \<and> endDateInput (showThreadsView (showThreadDetail t s)) = endDateInput s
   \<and> allThreads (showThreadsView (showThreadDetail t s)) = allThreads s
   \<and> threadCards (showThreadsView (showThreadDetail t s)) = threadCards s
   \<and> (t \<in> set (threadCards s) \<and> set (threadCards s) \<subseteq> set (allThreads s) \<and> \<not> threadsHidden s
        \<longrightarrow> visibleThreads (showThreadsView (showThreadDetail t s)) = visibleThreads s
          \<and> \<not> threadsHidden (showThreadsView (showThreadDetail t s))
          \<and> threadDetailHidden (showThreadsView (showThreadDetail t s)))"
  by (auto simp: view_defs visibleThreads_def)

theorem detail_round_trip_witness:
  "threadA \<in> set (threadCards listState)
   \<and> set (threadCards listState) \<subseteq> set (allThreads listState)
   \<and> visibleThreads listState = [threadA, threadB]
   \<and> visibleThreads (showThreadDetail threadA listState) = []
   \<and> visibleThreads (showThreadsView (showThreadDetail threadA listState)) = [threadA, threadB]
   \<and> activeFilters (showThreadsView (showThreadDetail threadA listState)) = noFilters"
proof -
  have a: "threadA \<in> set (threadCards listState)"
    and b: "set (threadCards listState) \<subseteq> set (allThreads listState)"
    and c: "\<not> threadsHidden listState"
    and d: "visibleThreads listState = [threadA, threadB]"
    and e: "visibleThreads (showThreadDetail threadA listState) = []"
    and f: "activeFilters listState = noFilters"
    by (simp_all add: listState_def visibleThreads_def showThreadDetail_def)
  from a b c d f detail_round_trip [of threadA listState]
  have "visibleThreads (showThreadsView (showThreadDetail threadA listState)) = [threadA, threadB]"
    and "activeFilters (showThreadsView (showThreadDetail threadA listState)) = noFilters"
    by simp_all
  with a b d e show ?thesis by simp
qed


section \<open>Time values of the examples\<close>

lemma valueAsDate_1_May: "valueAsDate (Some (2024, 5, 1)) = Some 1714521600000"
  by (simp add: date_defs)

lemma valueAsDate_31_May: "valueAsDate (Some (2024, 5, 31)) = Some 1717113600000"
  by (simp add: date_defs)

lemma dateParts_sampleTime:
  "dateParts sampleTime
     = Some (str ''2024'', str ''5'', str ''7'', str ''21'', str ''24'', str ''39'')"
  by (simp add: parse_defs example_defs)

lemma replyDate_sampleTime:
  "replyDate tza (str ''2024'', str ''5'', str ''7'', str ''21'', str ''24'', str ''39'')
     = 1715117079000 - tza"
  by (simp add: parse_defs date_defs str_def)

lemma dateParts_lateTime:
  "dateParts lateTime
     = Some (str ''2024'', str ''5'', str ''31'', str ''12'', str ''00'', str ''00'')"
  by (simp add: parse_defs example_defs)

lemma replyDate_lateTime:
  "replyDate tza (str ''2024'', str ''5'', str ''31'', str ''12'', str ''00'', str ''00'')
     = 1717156800000 - tza"
  by (simp add: parse_defs date_defs str_def)

lemma dateParts_garbage: "dateParts (str ''garbage'') = None"
  by (simp add: parse_defs example_defs)

lemma sampleTime_not_empty: "sampleTime \<noteq> []"
  by (simp add: sampleTime_def str_def)

lemma lateTime_not_empty: "lateTime \<noteq> []"
  by (simp add: lateTime_def str_def)

lemma setHours_end_of_day:
  "setHours tza d 23 59 59 999 = d - (d + tza) mod 86400000 + 86399999"
  by (simp add: date_defs minus_mod_eq_div_mult [symmetric] algebra_simps)

lemma setHours_end_of_day_ge: "d \<le> setHours tza d 23 59 59 999"
proof -
  have "(d + tza) mod 86400000 < 86400000" by simp
  then show ?thesis unfolding setHours_end_of_day by linarith
qed

lemma end_of_day_east:
  assumes "0 \<le> tza" "tza < msPerDay"
  shows "LocalTime tza (setHours tza (MakeDate day 0) 23 59 59 999)
           = MakeDate day (MakeTime 23 59 59 999)"
  using assms
  by (simp add: setHours_end_of_day LocalTime_def MakeDate_def MakeTime_def msPerDay_def
      mod_pos_pos_trivial)

lemma end_of_day_west:
  assumes "- msPerDay \<le> tza" "tza < 0"
  shows "LocalTime tza (setHours tza (MakeDate day 0) 23 59 59 999)
           = MakeDate (day - 1) (MakeTime 23 59 59 999)"
proof -
  have "(tza + 86400000) mod 86400000 = tza + 86400000"
    using assms by (intro mod_pos_pos_trivial) (simp_all add: msPerDay_def)
  then have "tza mod 86400000 = tza + 86400000"
    by (simp only: mod_add_self2)
  then show ?thesis
    by (simp add: setHours_end_of_day LocalTime_def MakeDate_def MakeTime_def msPerDay_def
        algebra_simps)
qed

section \<open>What the handlers leave as it is\<close>

lemma renderThreads_frame:
  "activeFilters (renderThreads ts s) = activeFilters s"
  "allThreads (renderThreads ts s) = allThreads s"
  "threadCards (renderThreads ts s) = ts"
  by (simp_all add: renderThreads_def view_defs)

lemma performSearch_cards:
  assumes "filterThreads tza (activeFilters s) (allThreads s)
             (toLowerCase (trim (searchInput s))) = Inr R"
  shows "performSearch tza s = (None, snd (performSearch tza s))"
    and "threadCards (snd (performSearch tza s)) = R"
  using assms
  by (simp_all add: performSearch_def renderThreads_frame showNoResults_def Let_def)

lemma performSearch_filters:
  "activeFilters (snd (performSearch tza s)) = activeFilters s"
  by (cases "filterThreads tza (activeFilters s) (allThreads s)
               (toLowerCase (trim (searchInput s)))")
     (simp_all add: performSearch_def renderThreads_frame showNoResults_def Let_def)

lemma applyFilters_filters:
  "activeFilters (snd (applyFilters tza s)) =
     \<lparr>keywords_sel = map fst (filter snd (chips s)),
      startDate = valueAsDate (startDateInput s),
      endDate = map_option (\<lambda>d. setHours tza d 23 59 59 999) (valueAsDate (endDateInput s))\<rparr>"
proof -
  let ?F = "\<lparr>keywords_sel = map fst (filter snd (chips s)),
      startDate = valueAsDate (startDateInput s),
      endDate = map_option (\<lambda>d. setHours tza d 23 59 59 999) (valueAsDate (endDateInput s))\<rparr>"
  have "activeFilters (snd (performSearch tza (s\<lparr>activeFilters := ?F\<rparr>))) = ?F"
    by (simp add: performSearch_filters)
  then show ?thesis
    by (cases "performSearch tza (s\<lparr>activeFilters := ?F\<rparr>)")
       (auto simp: applyFilters_def Let_def toggleFilterPanel_def split: option.splits)
qed

lemma applyFilters_cards:
  assumes "filterThreads tza (activeFilters (snd (applyFilters tza s))) (allThreads s)
             (toLowerCase (trim (searchInput s))) = Inr R"
  shows "fst (applyFilters tza s) = None \<and> threadCards (snd (applyFilters tza s)) = R"
proof -
  let ?F = "\<lparr>keywords_sel = map fst (filter snd (chips s)),
      startDate = valueAsDate (startDateInput s),
      endDate = map_option (\<lambda>d. setHours tza d 23 59 59 999) (valueAsDate (endDateInput s))\<rparr>"
  let ?s1 = "s\<lparr>activeFilters := ?F\<rparr>"
  have "filterThreads tza (activeFilters ?s1) (allThreads ?s1)
          (toLowerCase (trim (searchInput ?s1))) = Inr R"
    using assms by (simp add: applyFilters_filters)
  note ps = performSearch_cards [OF this]
  define s2 where "s2 = snd (performSearch tza ?s1)"
  have "performSearch tza ?s1 = (None, s2)"
    using ps(1) by (simp add: s2_def)
  then have "applyFilters tza s = (None, toggleFilterPanel s2)"
    by (simp add: applyFilters_def Let_def)
  then show ?thesis using ps(2) by (simp add: toggleFilterPanel_def s2_def)
qed

lemma trim_Nil: "toLowerCase (trim []) = []"
  by (simp add: trim_def toLowerCase_def)

section \<open>The date range\<close>

lemma May_filters:
  "activeFilters (snd (applyFilters tza listState)) =
     \<lparr>keywords_sel = [], startDate = Some 1714521600000,
      endDate = Some (setHours tza 1717113600000 23 59 59 999)\<rparr>"
  by (simp add: applyFilters_filters listState_def valueAsDate_1_May valueAsDate_31_May)

lemma May_filters_late:
  "activeFilters (snd (applyFilters tza lateState)) =
     \<lparr>keywords_sel = [], startDate = Some 1714521600000,
      endDate = Some (setHours tza 1717113600000 23 59 59 999)\<rparr>"
  by (simp add: applyFilters_filters lateState_def listState_def valueAsDate_1_May
      valueAsDate_31_May)

lemma replyA_in_May:
  assumes "- msPerDay \<le> tza" "tza \<le> msPerDay"
  shows "replyInRange tza 1714521600000 (setHours tza 1717113600000 23 59 59 999) replyA"
proof -
  have "1717113600000 \<le> setHours tza 1717113600000 23 59 59 999"
    by (rule setHours_end_of_day_ge)
  then show ?thesis
    using assms
    by (simp add: replyInRange_def replyA_def sampleTime_not_empty dateParts_sampleTime
        replyDate_sampleTime msPerDay_def)
qed

lemma threadA_passes_May:
  assumes "- msPerDay \<le> tza" "tza \<le> msPerDay"
  shows "threadPasses tza (activeFilters (snd (applyFilters tza listState))) [] threadA
           = Inr True"
  unfolding May_filters
  by (simp add: threadPasses_def hasReplyInDateRange_def threadA_def replyA_in_May [OF assms])

lemma scenario_result:
  assumes "- msPerDay \<le> tza" "tza \<le> msPerDay"
  shows "filterThreads tza (activeFilters (snd (applyFilters tza listState)))
           [threadA, threadB] [] = Inr [threadA, threadB]"
proof -
  let ?F = "activeFilters (snd (applyFilters tza listState))"
  have B: "threadPasses tza ?F [] threadB = Inr True"
    unfolding May_filters by (simp add: threadPasses_def threadB_def)
  show ?thesis by (simp add: filterThreads_def threadA_passes_May [OF assms] B)
qed

lemma threadPasses_no_replies:
  assumes "repliesOf t = []"
  shows "threadPasses tza F T t = threadPasses tza (F\<lparr>startDate := None, endDate := None\<rparr>) T t"
  using assms
  by (auto simp: threadPasses_def repliesOf_def
      split: sum.splits bool.splits option.splits list.splits)

lemma threadPasses_in_range:
  assumes "startDate F = Some a" "endDate F = Some b" "repliesOf t \<noteq> []"
    "threadPasses tza F T t = Inr True"
  shows "hasReplyInDateRange tza a b (repliesOf t)"
  using assms
  by (auto simp: threadPasses_def repliesOf_def
      split: sum.splits bool.splits option.splits list.splits if_splits)

text \<open>
  C1, as the code has it: the date range is checked only on a thread that has at least
  one reply. A thread with no replies passes or fails as if no range were set; a thread
  with replies passes only when one of them has a time that parses to an instant from
  the start to the end of the range, and otherwise it is not in the result. In the
  scenario of threads A and B with the range from 1 May 2024 to 31 May 2024, in any
  time zone up to a day from UTC, the filter returns both A and B and the page lists
  both.
\<close>

theorem date_range_needs_a_reply:
  "(repliesOf t = [] \<longrightarrow>
      threadPasses tza F T t = threadPasses tza (F\<lparr>startDate := None, endDate := None\<rparr>) T t)
   \<and> (startDate F = Some a \<and> endDate F = Some b \<and> repliesOf t \<noteq> []
        \<and> threadPasses tza F T t = Inr True \<longrightarrow> hasReplyInDateRange tza a b (repliesOf t))
   \<and> (startDate F = Some a \<and> endDate F = Some b \<and> repliesOf t \<noteq> []
        \<and> \<not> hasReplyInDateRange tza a b (repliesOf t) \<and> filterThreads tza F C T = Inr R
        \<longrightarrow> t \<notin> set R)
   \<and> (- msPerDay \<le> tza \<and> tza \<le> msPerDay \<longrightarrow>
        filterThreads tza (activeFilters (snd (applyFilters tza listState)))
          [threadA, threadB] [] = Inr [threadA, threadB]
        \<and> threadCards (snd (applyFilters tza listState)) = [threadA, threadB])"
proof -
  have 3: "t \<notin> set R"
    if F: "startDate F = Some a" "endDate F = Some b" and r: "repliesOf t \<noteq> []"
      and n: "\<not> hasReplyInDateRange tza a b (repliesOf t)"
      and R: "filterThreads tza F C T = Inr R"
  proof
    assume "t \<in> set R"
    moreover have "R = filter (\<lambda>x. threadPasses tza F T x = Inr True) C"
      using R by (simp add: filterThreads_def filterE_Inr)
    ultimately have "threadPasses tza F T t = Inr True" by simp
    with threadPasses_in_range [OF F r] n show False by simp
  qed
  have 4: "threadCards (snd (applyFilters tza listState)) = [threadA, threadB]"
    if "- msPerDay \<le> tza" "tza \<le> msPerDay"
  proof -
    have "filterThreads tza (activeFilters (snd (applyFilters tza listState)))
           (allThreads listState) (toLowerCase (trim (searchInput listState)))
            = Inr [threadA, threadB]"
      using scenario_result [OF that] by (simp add: listState_def trim_Nil)
    from applyFilters_cards [OF this] show ?thesis by simp
  qed
  show ?thesis
  proof (intro conjI impI)
    assume "repliesOf t = []"
    then show "threadPasses tza F T t
        = threadPasses tza (F\<lparr>startDate := None, endDate := None\<rparr>) T t"
      by (rule threadPasses_no_replies)
  next
    assume "startDate F = Some a \<and> endDate F = Some b \<and> repliesOf t \<noteq> []
        \<and> threadPasses tza F T t = Inr True"
    then show "hasReplyInDateRange tza a b (repliesOf t)"
      using threadPasses_in_range [of F a b t tza T] by simp
  next
    assume "startDate F = Some a \<and> endDate F = Some b \<and> repliesOf t \<noteq> []
        \<and> \<not> hasReplyInDateRange tza a b (repliesOf t) \<and> filterThreads tza F C T = Inr R"
    then show "t \<notin> set R" using 3 by simp
  next
    assume "- msPerDay \<le> tza \<and> tza \<le> msPerDay"
    then show "filterThreads tza (activeFilters (snd (applyFilters tza listState)))
          [threadA, threadB] [] = Inr [threadA, threadB]"
      using scenario_result [of tza] by simp
  next
    assume "- msPerDay \<le> tza \<and> tza \<le> msPerDay"
    then show "threadCards (snd (applyFilters tza listState)) = [threadA, threadB]"
      using 4 by simp
  qed
qed

text \<open>C1 as the specification states it fails: with the range set, thread B, which
  has no replies, is in the result.\<close>

theorem no_replies_counterexample:
  "replies threadB = Some []
   \<and> startDate (activeFilters (snd (applyFilters 0 listState))) = Some 1714521600000
   \<and> endDate (activeFilters (snd (applyFilters 0 listState))) = Some 1717199999999
   \<and> filterThreads 0 (activeFilters (snd (applyFilters 0 listState))) [threadA, threadB] []
       = Inr [threadA, threadB]"
proof -
  have "filterThreads 0 (activeFilters (snd (applyFilters 0 listState))) [threadA, threadB] []
       = Inr [threadA, threadB]"
    by (rule scenario_result) (simp_all add: msPerDay_def)
  then show ?thesis
    by (simp add: May_filters setHours_end_of_day threadB_def)
qed

theorem date_range_needs_a_reply_witness:
  "repliesOf threadB = [] \<and> repliesOf threadLate \<noteq> []
   \<and> threadPasses 0 (activeFilters (snd (applyFilters 0 listState))) [] threadB = Inr True
   \<and> filterThreads 0 (activeFilters (snd (applyFilters 0 listState))) [threadA, threadB] []
       = Inr [threadA, threadB]
   \<and> threadCards (snd (applyFilters 0 listState)) = [threadA, threadB]
   \<and> hasReplyInDateRange 0 1714521600000 1717199999999 (repliesOf threadA)
   \<and> \<not> hasReplyInDateRange 0 1714521600000 1716000000000 (repliesOf threadLate)
   \<and> filterThreads 0
        \<lparr>keywords_sel = [], startDate = Some 1714521600000, endDate = Some 1716000000000\<rparr>
        [threadA, threadLate] [] = Inr [threadA]
   \<and> threadLate \<notin> set [threadA]"
proof -
  let ?F = "activeFilters (snd (applyFilters 0 listState))"
  let ?G = "\<lparr>keywords_sel = [], startDate = Some 1714521600000,
             endDate = Some 1716000000000\<rparr>"
  note inst = date_range_needs_a_reply
    [where tza = 0 and F = ?F and T = "[]" and a = 1714521600000 and b = 1717199999999]
  have F: "startDate ?F = Some 1714521600000" "endDate ?F = Some 1717199999999"
    by (simp_all add: May_filters setHours_end_of_day)
  have b: "repliesOf threadB = []" and l: "repliesOf threadLate \<noteq> []"
    and a: "repliesOf threadA \<noteq> []"
    by (simp_all add: repliesOf_def example_defs)
  have z: "- msPerDay \<le> (0::int)" "(0::int) \<le> msPerDay" by (simp_all add: msPerDay_def)
  from z inst [of threadB]
  have r: "filterThreads 0 ?F [threadA, threadB] [] = Inr [threadA, threadB]"
    and c: "threadCards (snd (applyFilters 0 listState)) = [threadA, threadB]"
    by simp_all
  from b inst [of threadB]
  have pB: "threadPasses 0 ?F [] threadB
              = threadPasses 0 (?F\<lparr>startDate := None, endDate := None\<rparr>) [] threadB"
    by simp
  have pB': "threadPasses 0 (?F\<lparr>startDate := None, endDate := None\<rparr>) [] threadB = Inr True"
    by (simp add: threadPasses_nothing May_filters)
  have pA: "threadPasses 0 ?F [] threadA = Inr True"
    by (rule threadA_passes_May) (simp_all add: msPerDay_def)
  from F a pA inst [of threadA]
  have hA: "hasReplyInDateRange 0 1714521600000 1717199999999 (repliesOf threadA)"
    by simp
  have hL: "\<not> hasReplyInDateRange 0 1714521600000 1716000000000 (repliesOf threadLate)"
    by (simp add: hasReplyInDateRange_def replyInRange_def repliesOf_def threadLate_def
        threadA_def lateTime_not_empty dateParts_lateTime replyDate_lateTime)
  have g: "filterThreads 0 ?G [threadA, threadLate] [] = Inr [threadA]"
    by (simp add: filterThreads_def threadPasses_def hasReplyInDateRange_def replyInRange_def
        threadLate_def threadA_def replyA_def lateTime_not_empty sampleTime_not_empty
        dateParts_lateTime replyDate_lateTime dateParts_sampleTime replyDate_sampleTime)
  from l hL g date_range_needs_a_reply
    [where tza = 0 and F = ?G and T = "[]" and a = 1714521600000 and b = 1716000000000
       and t = threadLate and C = "[threadA, threadLate]" and R = "[threadA]"]
  have x: "threadLate \<notin> set [threadA]"
    by simp
  from b l r c pB pB' hA hL g x show ?thesis by simp
qed

section \<open>The end of the day\<close>

text \<open>
  C8: \<^verbatim>\<open>applyFilters\<close> stores the start as \<^verbatim>\<open>valueAsDate\<close> gives it, midnight UTC
  of the start date, and the end after \<^verbatim>\<open>setHours(23, 59, 59, 999)\<close>, which sets
  the local time of the local day of midnight UTC of the end date. In a zone at or
  east of UTC that is 23:59:59.999 of the end date; in a zone west of UTC midnight UTC
  falls on the evening before, and the end is 23:59:59.999 of the day before the end
  date. The comparison of a reply with the range takes both ends in.
\<close>

theorem end_of_day_normalisation:
  "activeFilters (snd (applyFilters tza s)) =
     \<lparr>keywords_sel = map fst (filter snd (chips s)),
      startDate = valueAsDate (startDateInput s),
      endDate = map_option (\<lambda>d. setHours tza d 23 59 59 999) (valueAsDate (endDateInput s))\<rparr>
   \<and> (0 \<le> tza \<and> tza < msPerDay \<longrightarrow>
        LocalTime tza (setHours tza (MakeDate day 0) 23 59 59 999)
          = MakeDate day (MakeTime 23 59 59 999))
   \<and> (- msPerDay \<le> tza \<and> tza < 0 \<longrightarrow>
        LocalTime tza (setHours tza (MakeDate day 0) 23 59 59 999)
          = MakeDate (day - 1) (MakeTime 23 59 59 999))
   \<and> (time r = Some ts \<and> ts \<noteq> [] \<and> dateParts ts = Some parts \<and> a \<le> b
        \<and> (replyDate tza parts = a \<or> replyDate tza parts = b) \<longrightarrow> replyInRange tza a b r)"
proof (intro conjI impI)
  show "activeFilters (snd (applyFilters tza s)) =
     \<lparr>keywords_sel = map fst (filter snd (chips s)),
      startDate = valueAsDate (startDateInput s),
      endDate = map_option (\<lambda>d. setHours tza d 23 59 59 999) (valueAsDate (endDateInput s))\<rparr>"
    by (rule applyFilters_filters)
next
  assume "0 \<le> tza \<and> tza < msPerDay"
  then show "LocalTime tza (setHours tza (MakeDate day 0) 23 59 59 999)
          = MakeDate day (MakeTime 23 59 59 999)"
    by (simp add: end_of_day_east)
next
  assume "- msPerDay \<le> tza \<and> tza < 0"
  then show "LocalTime tza (setHours tza (MakeDate day 0) 23 59 59 999)
          = MakeDate (day - 1) (MakeTime 23 59 59 999)"
    by (simp add: end_of_day_west)
next
  assume "time r = Some ts \<and> ts \<noteq> [] \<and> dateParts ts = Some parts \<and> a \<le> b
        \<and> (replyDate tza parts = a \<or> replyDate tza parts = b)"
  then show "replyInRange tza a b r"
    by (auto simp: replyInRange_def)
qed

lemma threadLate_excluded:
  "threadPasses (- 18000000) (activeFilters (snd (applyFilters (- 18000000) lateState))) []
     threadLate = Inr False"
  unfolding May_filters_late
  by (simp add: threadPasses_def hasReplyInDateRange_def replyInRange_def threadLate_def
      threadA_def lateTime_not_empty dateParts_lateTime replyDate_lateTime setHours_end_of_day)

lemma threadA_passes_late:
  "threadPasses (- 18000000) (activeFilters (snd (applyFilters (- 18000000) lateState))) []
     threadA = Inr True"
  unfolding May_filters_late
  by (simp add: threadPasses_def hasReplyInDateRange_def replyInRange_def replyA_def
      threadA_def sampleTime_not_empty dateParts_sampleTime replyDate_sampleTime
      setHours_end_of_day)

lemma late_cards:
  "threadCards (snd (applyFilters (- 18000000) lateState)) = [threadA]"
proof -
  have al: "allThreads lateState = [threadA, threadLate]"
    and si: "toLowerCase (trim (searchInput lateState)) = []"
    by (simp_all add: lateState_def listState_def trim_Nil)
  have "filterThreads (- 18000000) (activeFilters (snd (applyFilters (- 18000000) lateState)))
          (allThreads lateState) (toLowerCase (trim (searchInput lateState))) = Inr [threadA]"
    unfolding al si
    by (simp add: filterThreads_def threadLate_excluded threadA_passes_late)
  from applyFilters_cards [OF this] show ?thesis by simp
qed

theorem end_of_day_normalisation_witness:
  "- msPerDay \<le> (- 18000000 :: int) \<and> (- 18000000 :: int) < 0
   \<and> valueAsDate (endDateInput lateState) = Some (MakeDate (MakeDay 2024 4 31) 0)
   \<and> endDate (activeFilters (snd (applyFilters (- 18000000) lateState)))
       = Some (setHours (- 18000000) (MakeDate (MakeDay 2024 4 31) 0) 23 59 59 999)
   \<and> LocalTime (- 18000000) (setHours (- 18000000) (MakeDate (MakeDay 2024 4 31) 0) 23 59 59 999)
       = MakeDate (MakeDay 2024 4 30) (MakeTime 23 59 59 999)
   \<and> replyDate (- 18000000) (str ''2024'', str ''5'', str ''31'', str ''12'', str ''00'', str ''00'')
       = UTC (- 18000000) (MakeDate (MakeDay 2024 4 31) (MakeTime 12 0 0 0))
   \<and> threadCards (snd (applyFilters (- 18000000) lateState)) = [threadA]
   \<and> (0 :: int) \<le> 28800000 \<and> (28800000 :: int) < msPerDay
   \<and> LocalTime 28800000 (setHours 28800000 (MakeDate (MakeDay 2024 4 31) 0) 23 59 59 999)
       = MakeDate (MakeDay 2024 4 31) (MakeTime 23 59 59 999)
   \<and> replyInRange 0 1715117079000 1717199999999 replyA
   \<and> replyInRange 0 1714521600000 1715117079000 replyA"
proof -
  note inst = end_of_day_normalisation
    [where tza = "- 18000000" and s = lateState and day = "MakeDay 2024 4 31"]
  have z: "- msPerDay \<le> (- 18000000 :: int)" "(- 18000000 :: int) < 0"
    and z': "(0 :: int) \<le> 28800000" "(28800000 :: int) < msPerDay"
    by (simp_all add: msPerDay_def)
  have v: "valueAsDate (endDateInput lateState) = Some (MakeDate (MakeDay 2024 4 31) 0)"
    by (simp add: lateState_def listState_def valueAsDate_def)
  from inst v
  have e: "endDate (activeFilters (snd (applyFilters (- 18000000) lateState)))
       = Some (setHours (- 18000000) (MakeDate (MakeDay 2024 4 31) 0) 23 59 59 999)"
    by simp
  have d: "MakeDay 2024 4 31 - 1 = MakeDay 2024 4 30"
    by (simp add: date_defs)
  from z inst d
  have l: "LocalTime (- 18000000) (setHours (- 18000000) (MakeDate (MakeDay 2024 4 31) 0) 23 59 59 999)
       = MakeDate (MakeDay 2024 4 30) (MakeTime 23 59 59 999)"
    by simp
  have r: "replyDate (- 18000000) (str ''2024'', str ''5'', str ''31'', str ''12'', str ''00'', str ''00'')
       = UTC (- 18000000) (MakeDate (MakeDay 2024 4 31) (MakeTime 12 0 0 0))"
    by (simp add: replyDate_lateTime date_defs)
  from z' end_of_day_normalisation [where tza = 28800000 and day = "MakeDay 2024 4 31"]
  have l': "LocalTime 28800000 (setHours 28800000 (MakeDate (MakeDay 2024 4 31) 0) 23 59 59 999)
       = MakeDate (MakeDay 2024 4 31) (MakeTime 23 59 59 999)"
    by simp
  have t: "time replyA = Some sampleTime" by (simp add: replyA_def)
  note incl = end_of_day_normalisation
    [where tza = 0 and r = replyA and ts = sampleTime
       and parts = "(str ''2024'', str ''5'', str ''7'', str ''21'', str ''24'', str ''39'')"]
  from t sampleTime_not_empty dateParts_sampleTime replyDate_sampleTime [of 0]
    incl [where a = 1715117079000 and b = 1717199999999]
  have i1: "replyInRange 0 1715117079000 1717199999999 replyA"
    by simp
  from t sampleTime_not_empty dateParts_sampleTime replyDate_sampleTime [of 0]
    incl [where a = 1714521600000 and b = 1715117079000]
  have i2: "replyInRange 0 1714521600000 1715117079000 replyA"
    by simp
  from z z' v e l r late_cards l' i1 i2 show ?thesis by simp
qed

section \<open>The timestamp parser\<close>

lemma run_append:
  assumes "\<forall>c \<in> set xs. inCls k c" "rest = [] \<or> \<not> inCls k (hd rest)"
  shows "run k (xs @ rest) = length xs"
proof -
  have "takeWhile (inCls k) rest = []"
    using assms(2) by (cases rest) auto
  then show ?thesis
    using assms(1) by (simp add: run_def takeWhile_append2)
qed

lemma candidates_longest:
  assumes "\<forall>c \<in> set xs. inCls k c" "rest = [] \<or> \<not> inCls k (hd rest)"
    "lo \<le> length xs" "case hi of None \<Rightarrow> True | Some h \<Rightarrow> length xs \<le> h"
  shows "candidates (k, lo, hi) (xs @ rest) = length xs # rev [lo ..< length xs]"
  using assms(3,4)
  by (auto simp: candidates_def run_append [OF assms(1,2)] min_def Let_def split: option.splits)

text \<open>The greedy choice: when the longest run of the class is within the bounds and
  the rest of the pattern matches after it, that is the match.\<close>

lemma matchSeq_step:
  assumes "\<forall>c \<in> set xs. inCls k c" "rest = [] \<or> \<not> inCls k (hd rest)"
    "lo \<le> length xs" "case hi of None \<Rightarrow> True | Some h \<Rightarrow> length xs \<le> h"
    "matchSeq its rest = Some cs"
  shows "matchSeq ((k, lo, hi) # its) (xs @ rest) = Some (xs # cs)"
  by (simp add: candidates_longest [OF assms(1-4)] assms(5))

lemma step_digits:
  assumes "digitRun lo hi xs" "\<not> isDigit c" "matchSeq its (c # rest) = Some cs"
  shows "matchSeq ((Digit, lo, Some hi) # its) (xs @ c # rest) = Some (xs # cs)"
  using assms by (intro matchSeq_step) (simp_all add: digitRun_def list_all_iff)

lemma step_digits_end:
  assumes "digitRun lo hi xs"
  shows "matchSeq [(Digit, lo, Some hi)] xs = Some [xs]"
  using matchSeq_step [of xs Digit "[]" lo "Some hi" "[]" "[]"] assms
  by (simp add: digitRun_def list_all_iff)

lemma step_lit:
  assumes "hd rest \<noteq> l" "matchSeq its rest = Some cs"
  shows "matchSeq ((Lit l, 1, Some 1) # its) (l # rest) = Some ([l] # cs)"
  using matchSeq_step [of "[l]" "Lit l" rest 1 "Some 1" its cs] assms by simp

lemma step_spaces:
  assumes "ws \<noteq> []" "list_all isSpace ws" "\<not> isSpace (hd rest)"
    "matchSeq its rest = Some cs"
  shows "matchSeq ((Space, 1, None) # its) (ws @ rest) = Some (ws # cs)"
  using assms by (intro matchSeq_step) (simp_all add: list_all_iff Suc_le_eq)

lemma digitRun_hd:
  assumes "digitRun 1 hi xs"
  shows "isDigit (hd (xs @ rest))"
  using assms by (cases xs) (simp_all add: digitRun_def)

lemma digit_not_space: "isDigit c \<Longrightarrow> \<not> isSpace c"
  by (auto simp: isDigit_def isSpace_def)

lemma digit_not_colon: "isDigit c \<Longrightarrow> c \<noteq> colon"
  by (simp add: isDigit_def colon_def)

lemma digit_not_nian: "isDigit c \<Longrightarrow> c \<noteq> nian"
  by (simp add: isDigit_def nian_def)

lemma digit_not_yue: "isDigit c \<Longrightarrow> c \<noteq> yue"
  by (simp add: isDigit_def yue_def)

lemma space_not_ri: "isSpace c \<Longrightarrow> c \<noteq> ri"
  by (auto simp: isSpace_def ri_def)

lemma lit_not_digit: "\<not> isDigit nian" "\<not> isDigit yue" "\<not> isDigit ri" "\<not> isDigit colon"
  by (simp_all add: isDigit_def nian_def yue_def ri_def colon_def)

lemma search_here:
  "matchSeq p s = Some cs \<Longrightarrow> search p s = Some cs"
  by (cases s) auto

lemma dateParts_exact:
  assumes y: "digitRun 4 4 ys" and m: "digitRun 1 2 ms" and d: "digitRun 1 2 ds"
    and w: "ws \<noteq> []" "list_all isSpace ws"
    and h: "digitRun 1 2 hs" and mi: "digitRun 1 2 mis" and s: "digitRun 1 2 ss"
  shows "dateParts (ys @ nian # ms @ yue # ds @ ri # ws @ hs @ colon # mis @ colon # ss)
           = Some (ys, ms, ds, hs, mis, ss)"
proof -
  have ws_hd: "hd (ws @ r) \<noteq> ri" for r
    using w by (cases ws) (simp_all add: space_not_ri)
  note 12 = step_digits_end [OF s]
  note 11 = step_lit [OF digit_not_colon [OF digitRun_hd [OF s, of "[]"], simplified] 12]
  note 10 = step_digits [OF mi lit_not_digit(4) 11]
  note 9 = step_lit [OF digit_not_colon [OF digitRun_hd [OF mi]] 10]
  note 8 = step_digits [OF h lit_not_digit(4) 9]
  note 7 = step_spaces [OF w digit_not_space [OF digitRun_hd [OF h]] 8]
  note 6 = step_lit [OF ws_hd 7]
  note 5 = step_digits [OF d lit_not_digit(3) 6]
  note 4 = step_lit [OF digit_not_yue [OF digitRun_hd [OF d]] 5]
  note 3 = step_digits [OF m lit_not_digit(2) 4]
  note 2 = step_lit [OF digit_not_nian [OF digitRun_hd [OF m]] 3]
  note 1 = step_digits [OF y lit_not_digit(1) 2]
  have "search timePattern
          (ys @ nian # ms @ yue # ds @ ri # ws @ hs @ colon # mis @ colon # ss)
        = Some [ys, [nian], ms, [yue], ds, [ri], ws, hs, [colon], mis, [colon], ss]"
    unfolding timePattern_def by (rule search_here) (rule 1)
  then show ?thesis
    by (simp add: dateParts_def)
qed

lemma unparsable_not_in_range:
  "time r = Some ts \<Longrightarrow> dateParts ts = None \<Longrightarrow> \<not> replyInRange tza a b r"
  by (simp add: replyInRange_def)

text \<open>
  C4: a time made of four digits, U+5E74, one or two digits, U+6708, one or two digits,
  U+65E5, white space, and three runs of one or two digits between colons is split into
  its six fields, and the instant is built from the fields with the month lowered by
  one. A reply whose time does not match is not in any date range, and nothing is
  thrown. The time of the sample reply gives the fields 2024, 5, 7, 21, 24 and 39 and
  the instant 21:24:39 on 7 May 2024, local time; \<open>garbage\<close> gives no match.
\<close>

theorem timestamp_parser:
  "(digitRun 4 4 ys \<and> digitRun 1 2 ms \<and> digitRun 1 2 ds \<and> ws \<noteq> [] \<and> list_all isSpace ws
      \<and> digitRun 1 2 hs \<and> digitRun 1 2 mis \<and> digitRun 1 2 ss \<longrightarrow>
      dateParts (ys @ nian # ms @ yue # ds @ ri # ws @ hs @ colon # mis @ colon # ss)
        = Some (ys, ms, ds, hs, mis, ss)
      \<and> replyDate tza (ys, ms, ds, hs, mis, ss)
        = newDate tza (parseInt ys) (parseInt ms - 1) (parseInt ds)
            (parseInt hs) (parseInt mis) (parseInt ss))
   \<and> (time r = Some ts \<and> dateParts ts = None \<longrightarrow> \<not> replyInRange tza a b r)
   \<and> dateParts sampleTime
        = Some (str ''2024'', str ''5'', str ''7'', str ''21'', str ''24'', str ''39'')
   \<and> (parseInt (str ''2024''), parseInt (str ''5''), parseInt (str ''7''),
        parseInt (str ''21''), parseInt (str ''24''), parseInt (str ''39''))
        = (2024, 5, 7, 21, 24, 39)
   \<and> replyDate tza (str ''2024'', str ''5'', str ''7'', str ''21'', str ''24'', str ''39'')
        = UTC tza (MakeDate (MakeDay 2024 4 7) (MakeTime 21 24 39 0))
   \<and> dateParts (str ''garbage'') = None"
proof (intro conjI impI)
  assume a: "digitRun 4 4 ys \<and> digitRun 1 2 ms \<and> digitRun 1 2 ds \<and> ws \<noteq> []
      \<and> list_all isSpace ws \<and> digitRun 1 2 hs \<and> digitRun 1 2 mis \<and> digitRun 1 2 ss"
  then show "dateParts (ys @ nian # ms @ yue # ds @ ri # ws @ hs @ colon # mis @ colon # ss)
        = Some (ys, ms, ds, hs, mis, ss)"
    by (intro dateParts_exact) simp_all
next
  show "replyDate tza (ys, ms, ds, hs, mis, ss)
        = newDate tza (parseInt ys) (parseInt ms - 1) (parseInt ds)
            (parseInt hs) (parseInt mis) (parseInt ss)"
    by (simp add: replyDate_def)
next
  assume "time r = Some ts \<and> dateParts ts = None"
  then show "\<not> replyInRange tza a b r"
    by (simp add: unparsable_not_in_range)
next
  show "dateParts sampleTime
        = Some (str ''2024'', str ''5'', str ''7'', str ''21'', str ''24'', str ''39'')"
    by (rule dateParts_sampleTime)
next
  show "(parseInt (str ''2024''), parseInt (str ''5''), parseInt (str ''7''),
        parseInt (str ''21''), parseInt (str ''24''), parseInt (str ''39''))
        = (2024, 5, 7, 21, 24, 39)"
    by (simp add: parseInt_def str_def)
next
  show "replyDate tza (str ''2024'', str ''5'', str ''7'', str ''21'', str ''24'', str ''39'')
        = UTC tza (MakeDate (MakeDay 2024 4 7) (MakeTime 21 24 39 0))"
    by (simp add: replyDate_sampleTime date_defs)
next
  show "dateParts (str ''garbage'') = None"
    by (rule dateParts_garbage)
qed

theorem timestamp_parser_witness:
  "digitRun 4 4 (str ''1999'') \<and> digitRun 1 2 (str ''12'') \<and> digitRun 1 2 (str ''31'')
   \<and> list_all isSpace (str ''  '') \<and> digitRun 1 2 (str ''08'') \<and> digitRun 1 2 (str ''5'')
   \<and> digitRun 1 2 (str ''09'')
   \<and> dateParts (str ''1999'' @ nian # str ''12'' @ yue # str ''31'' @ ri # str ''  ''
                 @ str ''08'' @ colon # str ''5'' @ colon # str ''09'')
       = Some (str ''1999'', str ''12'', str ''31'', str ''08'', str ''5'', str ''09'')
   \<and> replyDate 0 (str ''1999'', str ''12'', str ''31'', str ''08'', str ''5'', str ''09'')
       = 946627509000
   \<and> time (replyA\<lparr>time := Some (str ''garbage'')\<rparr>) = Some (str ''garbage'')
   \<and> \<not> replyInRange 0 0 1717199999999 (replyA\<lparr>time := Some (str ''garbage'')\<rparr>)"
proof -
  note inst = timestamp_parser
    [where ys = "str ''1999''" and ms = "str ''12''" and ds = "str ''31''" and ws = "str ''  ''"
       and hs = "str ''08''" and mis = "str ''5''" and ss = "str ''09''" and tza = 0
       and r = "replyA\<lparr>time := Some (str ''garbage'')\<rparr>" and ts = "str ''garbage''"
       and a = 0 and b = 1717199999999]
  have g: "digitRun 4 4 (str ''1999'')" "digitRun 1 2 (str ''12'')" "digitRun 1 2 (str ''31'')"
    "str ''  '' \<noteq> []" "list_all isSpace (str ''  '')" "digitRun 1 2 (str ''08'')"
    "digitRun 1 2 (str ''5'')" "digitRun 1 2 (str ''09'')"
    by (simp_all add: digitRun_def isDigit_def isSpace_def str_def)
  have t: "time (replyA\<lparr>time := Some (str ''garbage'')\<rparr>) = Some (str ''garbage'')"
    by simp
  from g inst
  have p: "dateParts (str ''1999'' @ nian # str ''12'' @ yue # str ''31'' @ ri # str ''  ''
                 @ str ''08'' @ colon # str ''5'' @ colon # str ''09'')
       = Some (str ''1999'', str ''12'', str ''31'', str ''08'', str ''5'', str ''09'')"
    by simp
  from g inst
  have "replyDate 0 (str ''1999'', str ''12'', str ''31'', str ''08'', str ''5'', str ''09'')
       = newDate 0 (parseInt (str ''1999'')) (parseInt (str ''12'') - 1) (parseInt (str ''31''))
            (parseInt (str ''08'')) (parseInt (str ''5'')) (parseInt (str ''09''))"
    by simp
  also have "\<dots> = 946627509000"
    by (simp add: parseInt_def str_def date_defs)
  finally have d: "replyDate 0 (str ''1999'', str ''12'', str ''31'', str ''08'', str ''5'', str ''09'')
       = 946627509000" .
  from t inst
  have n: "\<not> replyInRange 0 0 1717199999999 (replyA\<lparr>time := Some (str ''garbage'')\<rparr>)"
    by simp
  from g p d t n show ?thesis by simp
qed

end
